theory Spec2Isabelle
  imports Complex_Main "HOL-Library.Sublist"
begin

section \<open>Python values used by the application\<close>

text \<open>
  Strings are lists of characters. A character stands for the code point of the same
  number (U+0000 to U+00FF); code points above U+00FF are outside this model.
  \<open>is_space\<close> is Python's \<^verbatim>\<open>str.isspace\<close> on these code points, which is also
  what \<^verbatim>\<open>\s\<close> matches in a \<^verbatim>\<open>re\<close> pattern over \<^verbatim>\<open>str\<close>: TAB to CR, FS to US,
  SPACE, NEL (U+0085) and NBSP (U+00A0). \<open>is_upper\<close> and \<open>is_lower\<close> are the
  character classes \<^verbatim>\<open>[A-Z]\<close> and \<^verbatim>\<open>[a-z]\<close>.
\<close>

definition is_space :: "char \<Rightarrow> bool" where
  "is_space c =
     (let n = (of_char c :: nat)
      in (9 \<le> n \<and> n \<le> 13) \<or> (28 \<le> n \<and> n \<le> 32) \<or> n = 133 \<or> n = 160)"

definition is_upper :: "char \<Rightarrow> bool" where
  "is_upper c = (let n = (of_char c :: nat) in 65 \<le> n \<and> n \<le> 90)"

definition is_lower :: "char \<Rightarrow> bool" where
  "is_lower c = (let n = (of_char c :: nat) in 97 \<le> n \<and> n \<le> 122)"

text \<open>\<^verbatim>\<open>s.strip()\<close>: leading and trailing whitespace removed.\<close>

definition str_strip :: "string \<Rightarrow> string" where
  "str_strip s = rev (dropWhile is_space (rev (dropWhile is_space s)))"

text \<open>The exceptions that the modelled code can raise.\<close>

datatype error = ReadError | KeyError | AttributeError

section \<open>GeoDataFrames\<close>

text \<open>
  A GeoDataFrame as \<^verbatim>\<open>gpd.read_file\<close> produces it from a GeoJSON file: a list of
  labelled, typed columns and a list of rows (the Features, in file order), each row
  holding one cell per column. A text column (pandas dtype \<^verbatim>\<open>object\<close>) holds strings
  and missing values; numeric and geometry columns have dtypes of their own. The
  geometry type \<open>'g\<close> is left open: nothing below looks inside a geometry.
\<close>

datatype dtype = Object | Numeric | Geometry

datatype 'g cell = Str string | Num int | Null | Geom 'g

record 'g gdf =
  columns :: "(string \<times> dtype) list"
  rows :: "'g cell list list"

definition col_names :: "'g gdf \<Rightarrow> string list" where
  "col_names df = map fst (columns df)"

fun col_index :: "string \<Rightarrow> string list \<Rightarrow> nat option" where
  "col_index n [] = None"
| "col_index n (c # cs) = (if c = n then Some 0 else map_option Suc (col_index n cs))"

text \<open>\<^verbatim>\<open>df[name]\<close>: the cells of a column; KeyError when no column has that label.\<close>

definition getitem :: "'g gdf \<Rightarrow> string \<Rightarrow> error + 'g cell list" where
  "getitem df name =
     (case col_index name (col_names df) of
        None \<Rightarrow> Inl KeyError
      | Some i \<Rightarrow> Inr (map (\<lambda>r. r ! i) (rows df)))"

text \<open>\<^verbatim>\<open>df.rename(columns={old: new})\<close>: a new frame, the column relabelled.\<close>

definition rename :: "string \<Rightarrow> string \<Rightarrow> 'g gdf \<Rightarrow> 'g gdf" where
  "rename old new df =
     df\<lparr>columns := map (\<lambda>(n, t). (if n = old then new else n, t)) (columns df)\<rparr>"

text \<open>
  \<^verbatim>\<open>df[name] = df[name].str.strip()\<close>: the \<^verbatim>\<open>.str\<close> accessor raises AttributeError on
  a column that is not a text column; on a text column every string is stripped and
  every other cell becomes a missing value.
\<close>

fun strip_cell :: "'g cell \<Rightarrow> 'g cell" where
  "strip_cell (Str s) = Str (str_strip s)"
| "strip_cell _ = Null"

definition strip_column :: "string \<Rightarrow> 'g gdf \<Rightarrow> error + 'g gdf" where
  "strip_column name df =
     (case col_index name (col_names df) of
        None \<Rightarrow> Inl KeyError
      | Some i \<Rightarrow>
          if snd (columns df ! i) \<noteq> Object then Inl AttributeError
          else Inr (df\<lparr>rows := map (\<lambda>r. r[i := strip_cell (r ! i)]) (rows df)\<rparr>))"

text \<open>\<^verbatim>\<open>series.isin(values)\<close>: the boolean mask of the cells that are one of the values.\<close>

definition isin :: "'g cell list \<Rightarrow> string list \<Rightarrow> bool list" where
  "isin col vals = map (\<lambda>c. case c of Str s \<Rightarrow> s \<in> set vals | _ \<Rightarrow> False) col"

text \<open>\<^verbatim>\<open>df[mask]\<close>: the rows whose mask entry is true, in the frame's order.\<close>

definition boolean_index :: "'g gdf \<Rightarrow> bool list \<Rightarrow> 'g gdf" where
  "boolean_index df msk = df\<lparr>rows := map fst (filter snd (zip (rows df) msk))\<rparr>"

section \<open>app.py: loading the districts\<close>

text \<open>
  \<open>load_districts\<close> of app.py. Its argument is the outcome of
  \<^verbatim>\<open>gpd.read_file(path).to_crs(epsg=4326)\<close>: an error when the file cannot be read or
  parsed, the frame otherwise.
\<close>

definition load_districts :: "error + 'g gdf \<Rightarrow> error + 'g gdf" where
  "load_districts read_file =
     (case read_file of
        Inl e \<Rightarrow> Inl e
      | Inr districts_df \<Rightarrow>
          (let df1 =
                 (if ''district'' \<notin> set (col_names districts_df)
                     \<and> ''dtname'' \<in> set (col_names districts_df)
                  then rename ''dtname'' ''district'' districts_df
                  else districts_df)
           in if ''district'' \<in> set (col_names df1)
              then strip_column ''district'' df1
              else Inr df1))"

text \<open>
  The module-level \<^verbatim>\<open>try: districts = load_districts(path) except Exception as exc\<close>:
  the pair of \<^verbatim>\<open>districts\<close> and \<^verbatim>\<open>districts_load_error\<close>.
\<close>

definition try_load_districts :: "error + 'g gdf \<Rightarrow> 'g gdf option \<times> error option" where
  "try_load_districts read_file =
     (case load_districts read_file of
        Inl exc \<Rightarrow> (None, Some exc)
      | Inr df \<Rightarrow> (Some df, None))"

section \<open>app.py: selecting regions by name\<close>

text \<open>
  \<^verbatim>\<open>selected_data = geo[geo[label].isin(selected)]\<close>, with \<open>label\<close> the identifying
  column (\<^verbatim>\<open>State\<close> for the states, \<^verbatim>\<open>district\<close> for the districts) and \<open>selected\<close>
  the names the multi-select widget returned.
\<close>

definition selected_data :: "'g gdf \<Rightarrow> string \<Rightarrow> string list \<Rightarrow> error + 'g gdf" where
  "selected_data geo label selected =
     (case getitem geo label of
        Inl e \<Rightarrow> Inl e
      | Inr col \<Rightarrow> Inr (boolean_index geo (isin col selected)))"

text \<open>An example collection of three states.\<close>

definition example_states :: "nat gdf" where
  "example_states =
     \<lparr>columns = [(''State'', Object), (''geometry'', Geometry)],
      rows = [[Str ''Goa'', Geom 1], [Str ''Kerala'', Geom 2], [Str ''Sikkim'', Geom 3]]\<rparr>"

text \<open>A district file that has neither a \<^verbatim>\<open>district\<close> nor a \<^verbatim>\<open>dtname\<close> property.\<close>

definition example_unnamed :: "nat gdf" where
  "example_unnamed =
     \<lparr>columns = [(''name'', Object), (''geometry'', Geometry)],
      rows = [[Str '' Pune '', Geom 7]]\<rparr>"

text \<open>A district file that has both a \<^verbatim>\<open>district\<close> and a \<^verbatim>\<open>dtname\<close> property.\<close>

definition example_both :: "nat gdf" where
  "example_both =
     \<lparr>columns = [(''dtname'', Object), (''district'', Object), (''geometry'', Geometry)],
      rows = [[Str '' PUNE'', Str ''Pune  '', Geom 7]]\<rparr>"

text \<open>A district file that names its districts under the alias \<^verbatim>\<open>dtname\<close>.\<close>

definition example_alias :: "nat gdf" where
  "example_alias =
     \<lparr>columns = [(''geometry'', Geometry), (''dtname'', Object)],
      rows = [[Geom 7, Str '' Pune ''], [Geom 8, Null]]\<rparr>"

section \<open>app.py: the buffer tool\<close>

text \<open>
  The export and buffer tools of app.py. \<^verbatim>\<open>buffer_geometries\<close> is imported from the
  module \<^verbatim>\<open>utils\<close> and is a parameter here. The distance comes from a number input
  bounded below by 0; it is a real number in this model. \<open>None\<close> stands for the
  branches that derive no buffered frame: nothing selected, an empty selection, or a
  distance that is not positive.
\<close>

text \<open>\<^verbatim>\<open>df.empty\<close>: the frame has no rows or no columns.\<close>

definition frame_empty :: "'g gdf \<Rightarrow> bool" where
  "frame_empty df = (rows df = [] \<or> columns df = [])"

definition buffer_tools ::
  "('g gdf \<Rightarrow> real \<Rightarrow> 'g gdf) \<Rightarrow> 'g gdf option \<Rightarrow> real \<Rightarrow> 'g gdf option" where
  "buffer_tools buffer_geometries selection buffer_km =
     (case selection of
        None \<Rightarrow> None
      | Some sd \<Rightarrow>
          if \<not> frame_empty sd
          then (if buffer_km > 0 then Some (buffer_geometries sd buffer_km) else None)
          else None)"

section \<open>app.py: the targets handed to the connector builder\<close>

text \<open>
  \<^verbatim>\<open>target_coords=clicks if clicks else None\<close>: an empty list of clicked points is
  passed on as \<^verbatim>\<open>None\<close>.
\<close>

type_synonym point = "real \<times> real"

definition target_coords :: "point list \<Rightarrow> point list option" where
  "target_coords clicks = (if clicks \<noteq> [] then Some clicks else None)"

section \<open>scripts/build_geojsons.py: tidying names\<close>

text \<open>\<^verbatim>\<open>s.replace(old, new)\<close> for one-character \<open>old\<close> and \<open>new\<close>.\<close>

definition replace_char :: "char \<Rightarrow> char \<Rightarrow> string \<Rightarrow> string" where
  "replace_char old new s = map (\<lambda>c. if c = old then new else c) s"

text \<open>
  The two lookbehinds, on the character before the current position (\<open>None\<close> at the
  start of the string): \<^verbatim>\<open>(?<=[a-z])\<close> and \<^verbatim>\<open>(?<!\s)\<close>.
\<close>

definition behind_lower :: "char option \<Rightarrow> bool" where
  "behind_lower prev = (case prev of None \<Rightarrow> False | Some p \<Rightarrow> is_lower p)"

definition behind_not_space :: "char option \<Rightarrow> bool" where
  "behind_not_space prev = (case prev of None \<Rightarrow> True | Some p \<Rightarrow> \<not> is_space p)"

text \<open>
  \<^verbatim>\<open>re.sub(r"(?<=[a-z])and(?=[A-Z])", " and ", s)\<close>, scanning left to right: a match
  needs the three letters and one more character for the lookahead, and the scan
  resumes after the matched letters.
\<close>

fun sub_and :: "char option \<Rightarrow> string \<Rightarrow> string" where
  "sub_and prev (c1 # c2 # c3 # c4 # cs) =
     (if behind_lower prev \<and> c1 = CHR ''a'' \<and> c2 = CHR ''n'' \<and> c3 = CHR ''d'' \<and> is_upper c4
      then '' and '' @ sub_and (Some c3) (c4 # cs)
      else c1 # sub_and (Some c1) (c2 # c3 # c4 # cs))"
| "sub_and prev cs = cs"

text \<open>
  \<^verbatim>\<open>re.sub(r"(?<!\s)(?=[A-Z])", " ", s)\<close>: a space is inserted before every capital
  letter that does not follow a whitespace character.
\<close>

fun sub_upper :: "char option \<Rightarrow> string \<Rightarrow> string" where
  "sub_upper prev [] = []"
| "sub_upper prev (c # cs) =
     (if behind_not_space prev \<and> is_upper c
      then CHR '' '' # c # sub_upper (Some c) cs
      else c # sub_upper (Some c) cs)"

text \<open>\<^verbatim>\<open>re.sub(r"\s+", " ", s)\<close>: every maximal run of whitespace becomes one space.\<close>

function sub_spaces :: "string \<Rightarrow> string" where
  "sub_spaces [] = []"
| "sub_spaces (c # cs) =
     (if is_space c then CHR '' '' # sub_spaces (dropWhile is_space cs)
      else c # sub_spaces cs)"
  by pat_completeness auto
termination
  by (relation "measure length") (auto simp: length_dropWhile_le less_Suc_eq_le)

text \<open>The body of \<open>tidy_name\<close> for a string.\<close>

definition tidy_str :: "string \<Rightarrow> string" where
  "tidy_str v =
     (let cleaned = replace_char (CHR ''-'') (CHR '' '') (replace_char (CHR ''_'') (CHR '' '') v);
          cleaned = sub_and None cleaned;
          cleaned = sub_upper None cleaned;
          cleaned = sub_spaces cleaned
      in str_strip cleaned)"

text \<open>
  \<open>tidy_name\<close> is applied to the cells of the name columns; a value that is not a
  string is returned as it is.
\<close>

fun tidy_name :: "'g cell \<Rightarrow> 'g cell" where
  "tidy_name (Str v) = Str (tidy_str v)"
| "tidy_name v = v"

text \<open>
  What a tidied name looks like: no separator characters, every capital letter first
  or after a space (\<open>upper_ok b s\<close>, where \<open>b\<close> says whether whitespace stands before
  \<open>s\<close>), whitespace only as single spaces between other characters.
\<close>

definition separator_free :: "string \<Rightarrow> bool" where
  "separator_free s = (CHR ''_'' \<notin> set s \<and> CHR ''-'' \<notin> set s)"

fun upper_ok :: "bool \<Rightarrow> string \<Rightarrow> bool" where
  "upper_ok b [] = True"
| "upper_ok b (c # cs) = ((is_upper c \<longrightarrow> b) \<and> upper_ok (is_space c) cs)"

fun spaced :: "string \<Rightarrow> bool" where
  "spaced [] = True"
| "spaced [c] = (is_space c \<longrightarrow> c = CHR '' '')"
| "spaced (c # d # cs) = ((is_space c \<longrightarrow> c = CHR '' '' \<and> \<not> is_space d) \<and> spaced (d # cs))"

definition stripped :: "string \<Rightarrow> bool" where
  "stripped s = (s = [] \<or> (\<not> is_space (hd s) \<and> \<not> is_space (last s)))"

definition tidied :: "string \<Rightarrow> bool" where
  "tidied t = (separator_free t \<and> upper_ok True t \<and> spaced t \<and> stripped t)"

section \<open>The connector builder\<close>

text \<open>
  Modelled from the spec: \<^verbatim>\<open>draw_map_lines_with_labels\<close> is imported from the module
  \<^verbatim>\<open>utils\<close>, which is not among the sources; app.py only calls it. Every definition
  of this section follows section 4.3 of the specification. A Connector is a line, its
  style tag and a label anchor. The anchor of a Feature (its centroid or representative
  point) is a parameter, as are the three quantities the specification leaves open:
  the fraction of the segment length by which the control point is offset, the number
  of sample points of a curve, and the offset of a label from the line.
\<close>

datatype line_style = Straight | Dashed | Curved

record connector =
  line :: "point list"
  style :: line_style
  label_at :: point

record curve_params =
  fraction :: real
  samples :: nat
  label_offset :: point

text \<open>Modelled from the spec: the midpoint of the straight segment.\<close>

definition midpoint :: "point \<Rightarrow> point \<Rightarrow> point" where
  "midpoint a t = ((fst a + fst t) / 2, (snd a + snd t) / 2)"

text \<open>
  Modelled from the spec: the control point is the midpoint moved perpendicular to the
  segment by a fraction of its length. The vector \<open>(- dy, dx)\<close> is perpendicular to the
  segment and as long as it.
\<close>

definition control_point :: "real \<Rightarrow> point \<Rightarrow> point \<Rightarrow> point" where
  "control_point fr a t =
     (fst (midpoint a t) - fr * (snd t - snd a), snd (midpoint a t) + fr * (fst t - fst a))"

text \<open>
  Modelled from the spec: the quadratic interpolation between anchor, control point and
  target, and its samples at evenly spaced parameters from 0 to 1.
\<close>

definition quadratic :: "point \<Rightarrow> point \<Rightarrow> point \<Rightarrow> real \<Rightarrow> point" where
  "quadratic a c t u =
     ((1 - u) * (1 - u) * fst a + 2 * (1 - u) * u * fst c + u * u * fst t,
      (1 - u) * (1 - u) * snd a + 2 * (1 - u) * u * snd c + u * u * snd t)"

definition curve :: "curve_params \<Rightarrow> point \<Rightarrow> point \<Rightarrow> point list" where
  "curve p a t =
     map (\<lambda>k. quadratic a (control_point (fraction p) a t) t (real k / real (samples p - 1)))
       [0..<samples p]"

text \<open>Modelled from the spec: a label anchor is moved off the line by a fixed offset.\<close>

definition shift :: "point \<Rightarrow> point \<Rightarrow> point" where
  "shift v q = (fst q + fst v, snd q + snd v)"

text \<open>
  Modelled from the spec: the straight Connector is the two-point segment from anchor
  to target; the dashed one is the same segment with another style tag; the curved one
  is the sampled arc. The label anchor is the midpoint of the segment, or the sample of
  the arc at parameter 1/2, moved by the offset.
\<close>

fun build_connector :: "curve_params \<Rightarrow> line_style \<Rightarrow> point \<Rightarrow> point \<Rightarrow> connector" where
  "build_connector p Straight a t =
     \<lparr>line = [a, t], style = Straight, label_at = shift (label_offset p) (midpoint a t)\<rparr>"
| "build_connector p Dashed a t =
     \<lparr>line = [a, t], style = Dashed, label_at = shift (label_offset p) (midpoint a t)\<rparr>"
| "build_connector p Curved a t =
     \<lparr>line = curve p a t, style = Curved,
      label_at = shift (label_offset p) (quadratic a (control_point (fraction p) a t) t (1 / 2))\<rparr>"

text \<open>
  Modelled from the spec: one Connector for every ordered pair of a selected Feature
  and a target point; no targets, or none given at all, is the empty sequence.
\<close>

definition build_connectors ::
  "curve_params \<Rightarrow> ('f \<Rightarrow> point) \<Rightarrow> 'f list \<Rightarrow> point list option \<Rightarrow> line_style \<Rightarrow> connector list" where
  "build_connectors p anchor selection targets sty =
     (case targets of
        None \<Rightarrow> []
      | Some ts \<Rightarrow> concat (map (\<lambda>f. map (build_connector p sty (anchor f)) ts) selection))"

section \<open>The colour mapper\<close>

text \<open>
  Modelled from the spec: \<^verbatim>\<open>add_hover_tooltips\<close> is imported from the module \<^verbatim>\<open>utils\<close>,
  which is not among the sources; app.py only calls it. The definitions below follow
  section 4.4 of the specification. A collection for colouring is its schema of scalar
  attributes and its Features in order, each with its identifying name and one value
  per attribute of the schema. The colour scale is a parameter: a function from the
  unit interval to colours, whose values at 0 and 1 are the two extreme colours and
  whose value at 1/2 is the mid-scale colour.
\<close>

datatype color_error = AttributeNotFoundError

record feature =
  ident :: string
  scalars :: "real list"

record fcollection =
  schema :: "string list"
  features :: "feature list"

text \<open>
  Modelled from the spec: a value is normalised linearly between the least and the
  greatest value of the attribute; when the two are equal, the mid-scale position is
  taken instead of dividing by zero.
\<close>

definition normalize_value :: "real \<Rightarrow> real \<Rightarrow> real \<Rightarrow> real" where
  "normalize_value lo hi v = (if lo = hi then 1 / 2 else (v - lo) / (hi - lo))"

text \<open>
  Modelled from the spec: the mapper fails when the attribute is not in the schema;
  otherwise it takes the least and the greatest value over all Features and returns
  the binding, the side table from identifying names to colours in the order of the
  collection. The tooltip payload is not part of this model.
\<close>

definition map_colors ::
  "(real \<Rightarrow> 'c) \<Rightarrow> fcollection \<Rightarrow> string \<Rightarrow> color_error + (string \<times> 'c) list" where
  "map_colors palette coll attr =
     (case col_index attr (schema coll) of
        None \<Rightarrow> Inl AttributeNotFoundError
      | Some i \<Rightarrow>
          (let vals = map (\<lambda>f. scalars f ! i) (features coll)
           in if vals = [] then Inr []
              else (let lo = Min (set vals); hi = Max (set vals)
                    in Inr (map (\<lambda>f. (ident f, palette (normalize_value lo hi (scalars f ! i))))
                              (features coll)))))"

text \<open>Three states with a population each, and three with the same population.\<close>

definition example_population :: fcollection where
  "example_population =
     \<lparr>schema = [''Population''],
      features = [\<lparr>ident = ''Goa'', scalars = [15]\<rparr>, \<lparr>ident = ''Kerala'', scalars = [35]\<rparr>,
                  \<lparr>ident = ''Sikkim'', scalars = [7]\<rparr>]\<rparr>"

definition example_uniform :: fcollection where
  "example_uniform =
     \<lparr>schema = [''Population''],
      features = [\<lparr>ident = ''Goa'', scalars = [5]\<rparr>, \<lparr>ident = ''Kerala'', scalars = [5]\<rparr>]\<rparr>"

section \<open>Selection by names\<close>

lemma col_index_less: "col_index n cs = Some i \<Longrightarrow> i < length cs"
  by (induction cs arbitrary: i) (auto split: if_splits)

lemma col_index_nth: "col_index n cs = Some i \<Longrightarrow> cs ! i = n"
  by (induction cs arbitrary: i) (auto split: if_splits)

lemma col_index_None: "col_index n cs = None \<longleftrightarrow> n \<notin> set cs"
  by (induction cs) auto

lemma mask_filter: "map fst (filter snd (zip xs (map P xs))) = filter P xs"
  by (induction xs) auto

lemma isin_as_map:
  "isin (map f rs) vals = map (\<lambda>r. f r \<in> Str ` set vals) rs"
  by (auto simp: isin_def split: cell.splits)

text \<open>
  Claim C7. Whenever the collection has the identifying column, selecting by names
  succeeds and returns the collection with exactly those rows whose identifying cell is
  one of the given names, in the collection's order (a subsequence of its rows);
  names that no row carries change nothing; no list of names makes the selection fail.
\<close>

theorem selected_data_is_filter:
  assumes "col_index label (col_names geo) = Some i"
  shows "selected_data geo label selected =
           Inr (geo\<lparr>rows := filter (\<lambda>r. r ! i \<in> Str ` set selected) (rows geo)\<rparr>)
         \<and> subseq (filter (\<lambda>r. r ! i \<in> Str ` set selected) (rows geo)) (rows geo)
         \<and> ((\<forall>r \<in> set (rows geo). r ! i \<notin> Str ` set stale) \<longrightarrow>
              selected_data geo label (selected @ stale) = selected_data geo label selected)"
proof -
  have sel: "selected_data geo label names =
               Inr (geo\<lparr>rows := filter (\<lambda>r. r ! i \<in> Str ` set names) (rows geo)\<rparr>)" for names
    using assms
    by (simp add: selected_data_def getitem_def boolean_index_def isin_as_map mask_filter)
  have "filter (\<lambda>r. r ! i \<in> Str ` set (selected @ stale)) (rows geo)
        = filter (\<lambda>r. r ! i \<in> Str ` set selected) (rows geo)"
    if "\<forall>r \<in> set (rows geo). r ! i \<notin> Str ` set stale"
    using that by (intro filter_cong) auto
  then show ?thesis
    by (simp add: sel)
qed

theorem selected_data_is_filter_witness:
  "col_index ''State'' (col_names example_states) = Some 0
   \<and> selected_data example_states ''State'' [''Sikkim'', ''Atlantis'', ''Goa'']
       = Inr (example_states\<lparr>rows := [[Str ''Goa'', Geom 1], [Str ''Sikkim'', Geom 3]]\<rparr>)
   \<and> selected_data example_states ''State'' ([''Sikkim'', ''Goa''] @ [''Atlantis''])
       = selected_data example_states ''State'' [''Sikkim'', ''Goa'']"
proof -
  have h: "col_index ''State'' (col_names example_states) = Some 0"
    by (simp add: example_states_def col_names_def)
  have stale: "\<forall>r \<in> set (rows example_states). r ! 0 \<notin> Str ` set [''Atlantis'']"
    by (simp add: example_states_def)
  from selected_data_is_filter [OF h, of "[''Sikkim'', ''Goa'']" "[''Atlantis'']"] stale
  have a: "selected_data example_states ''State'' ([''Sikkim'', ''Goa''] @ [''Atlantis''])
       = selected_data example_states ''State'' [''Sikkim'', ''Goa'']"
    by blast
  from selected_data_is_filter [OF h, of "[''Sikkim'', ''Atlantis'', ''Goa'']" "[]"]
  have b: "selected_data example_states ''State'' [''Sikkim'', ''Atlantis'', ''Goa'']
       = Inr (example_states\<lparr>rows := [[Str ''Goa'', Geom 1], [Str ''Sikkim'', Geom 3]]\<rparr>)"
    by (simp add: example_states_def)
  from h a b show ?thesis by simp
qed

lemma selected_data_missing_column:
  "label \<notin> set (col_names geo) \<Longrightarrow> selected_data geo label selected = Inl KeyError"
  by (simp add: selected_data_def getitem_def col_index_None [THEN iffD2])

section \<open>Loading the districts\<close>

lemma col_names_rename:
  "col_names (rename old new df) = map (\<lambda>n. if n = old then new else n) (col_names df)"
  by (simp add: rename_def col_names_def comp_def case_prod_beta)

lemma col_index_relabel:
  "new \<notin> set cs \<Longrightarrow> col_index old cs = Some j \<Longrightarrow>
   col_index new (map (\<lambda>n. if n = old then new else n) cs) = Some j"
  by (induction cs arbitrary: j) (auto split: if_splits)

lemma dtype_rename:
  "j < length (columns df) \<Longrightarrow> snd (columns (rename old new df) ! j) = snd (columns df ! j)"
  by (simp add: rename_def case_prod_beta)

lemma rows_rename: "rows (rename old new df) = rows df"
  by (simp add: rename_def)

lemma load_districts_canonical:
  assumes "col_index ''district'' (col_names df) = Some i"
  shows "load_districts (Inr df) =
           (if snd (columns df ! i) \<noteq> Object then Inl AttributeError
            else Inr (df\<lparr>rows := map (\<lambda>r. r[i := strip_cell (r ! i)]) (rows df)\<rparr>))"
proof -
  from assms have "''district'' \<in> set (col_names df)"
    using col_index_None [of "''district''" "col_names df"] by auto
  with assms show ?thesis
    by (simp add: load_districts_def strip_column_def)
qed

lemma load_districts_alias:
  assumes "''district'' \<notin> set (col_names df)"
    and "col_index ''dtname'' (col_names df) = Some j"
  shows "load_districts (Inr df) =
           (if snd (columns df ! j) \<noteq> Object then Inl AttributeError
            else Inr ((rename ''dtname'' ''district'' df)
                        \<lparr>rows := map (\<lambda>r. r[j := strip_cell (r ! j)]) (rows df)\<rparr>))"
proof -
  let ?df1 = "rename ''dtname'' ''district'' df"
  from assms(2) have has_alias: "''dtname'' \<in> set (col_names df)"
    using col_index_None [of "''dtname''" "col_names df"] by auto
  from assms(2) have j: "j < length (columns df)"
    using col_index_less [of "''dtname''" "col_names df" j] by (simp add: col_names_def)
  have idx: "col_index ''district'' (col_names ?df1) = Some j"
    using assms by (simp add: col_names_rename col_index_relabel)
  then have canon: "''district'' \<in> set (col_names ?df1)"
    using col_index_None [of "''district''" "col_names ?df1"] by auto
  have "load_districts (Inr df) = strip_column ''district'' ?df1"
    using assms(1) has_alias canon by (simp add: load_districts_def)
  also have "\<dots> = (if snd (columns df ! j) \<noteq> Object then Inl AttributeError
            else Inr (?df1\<lparr>rows := map (\<lambda>r. r[j := strip_cell (r ! j)]) (rows df)\<rparr>))"
    using idx j by (simp add: strip_column_def dtype_rename rows_rename)
  finally show ?thesis .
qed

lemma load_districts_neither:
  assumes "''district'' \<notin> set (col_names df)" and "''dtname'' \<notin> set (col_names df)"
  shows "load_districts (Inr df) = Inr df"
  using assms by (simp add: load_districts_def)

text \<open>
  Claim C6, as stated, at a district file that has neither column: there is no usable
  identifying column after the fallback, yet loading does not fail. The frame comes
  back as it was read, and no load error is recorded.
\<close>

theorem load_districts_no_column_counterexample:
  "''district'' \<notin> set (col_names example_unnamed)
   \<and> ''dtname'' \<notin> set (col_names example_unnamed)
   \<and> \<not> isl (load_districts (Inr example_unnamed))
   \<and> load_districts (Inr example_unnamed) = Inr example_unnamed
   \<and> try_load_districts (Inr example_unnamed) = (Some example_unnamed, None)"
  by (simp add: load_districts_def try_load_districts_def example_unnamed_def col_names_def)

text \<open>
  Claim C6, amended. Loading fails when the file cannot be read. Otherwise the
  identifying column is resolved by trying \<^verbatim>\<open>district\<close> first and the alias
  \<^verbatim>\<open>dtname\<close> second (relabelled \<^verbatim>\<open>district\<close>); the names in the resolved column are
  stripped, and loading fails if that column is not a text column. When neither label
  is a column, loading does not fail: the frame is returned as it was read.
\<close>

theorem load_districts_resolution:
  "load_districts (Inl e) = (Inl e :: error + 'g gdf)
   \<and> try_load_districts (Inl e) = (None :: 'g gdf option, Some e)
   \<and> (col_index ''district'' (col_names df) = Some i \<longrightarrow>
        load_districts (Inr df) =
          (if snd (columns df ! i) \<noteq> Object then Inl AttributeError
           else Inr (df\<lparr>rows := map (\<lambda>r. r[i := strip_cell (r ! i)]) (rows df)\<rparr>)))
   \<and> (''district'' \<notin> set (col_names df) \<and> col_index ''dtname'' (col_names df) = Some j \<longrightarrow>
        load_districts (Inr df) =
          (if snd (columns df ! j) \<noteq> Object then Inl AttributeError
           else Inr ((rename ''dtname'' ''district'' df)
                       \<lparr>rows := map (\<lambda>r. r[j := strip_cell (r ! j)]) (rows df)\<rparr>)))
   \<and> (''district'' \<notin> set (col_names df) \<and> ''dtname'' \<notin> set (col_names df) \<longrightarrow>
        load_districts (Inr df) = Inr df)"
  using load_districts_canonical [of df i] load_districts_alias [of df j]
    load_districts_neither [of df]
  by (simp add: load_districts_def try_load_districts_def)

theorem load_districts_resolution_witness:
  "load_districts (Inl ReadError) = (Inl ReadError :: error + nat gdf)
   \<and> col_index ''district'' (col_names example_both) = Some 1
   \<and> load_districts (Inr example_both) =
        Inr \<lparr>columns = [(''dtname'', Object), (''district'', Object), (''geometry'', Geometry)],
             rows = [[Str '' PUNE'', Str ''Pune'', Geom 7]]\<rparr>
   \<and> ''district'' \<notin> set (col_names example_alias)
   \<and> col_index ''dtname'' (col_names example_alias) = Some 1
   \<and> load_districts (Inr example_alias) =
        Inr \<lparr>columns = [(''geometry'', Geometry), (''district'', Object)],
             rows = [[Geom 7, Str ''Pune''], [Geom 8, Null]]\<rparr>
   \<and> ''district'' \<notin> set (col_names example_unnamed)
   \<and> ''dtname'' \<notin> set (col_names example_unnamed)
   \<and> load_districts (Inr example_unnamed) = Inr example_unnamed"
proof -
  have a: "''district'' \<notin> set (col_names example_alias)"
    and b: "col_index ''dtname'' (col_names example_alias) = Some 1"
    by (simp_all add: example_alias_def col_names_def)
  have c: "''district'' \<notin> set (col_names example_unnamed)"
    and d: "''dtname'' \<notin> set (col_names example_unnamed)"
    by (simp_all add: example_unnamed_def col_names_def)
  have k: "col_index ''district'' (col_names example_both) = Some 1"
    by (simp add: example_both_def col_names_def)
  have s: "str_strip '' Pune '' = ''Pune''" "str_strip ''Pune  '' = ''Pune''"
    by (simp_all add: str_strip_def is_space_def)
  from load_districts_resolution [of ReadError example_both 1 0] k
  have "load_districts (Inr example_both) =
          (if snd (columns example_both ! 1) \<noteq> Object then Inl AttributeError
           else Inr (example_both
                       \<lparr>rows := map (\<lambda>r. r[1 := strip_cell (r ! 1)]) (rows example_both)\<rparr>))"
    by blast
  then have l: "load_districts (Inr example_both) =
        Inr \<lparr>columns = [(''dtname'', Object), (''district'', Object), (''geometry'', Geometry)],
             rows = [[Str '' PUNE'', Str ''Pune'', Geom 7]]\<rparr>"
    by (simp add: example_both_def s)
  from load_districts_resolution [of ReadError example_alias 0 1] a b
  have "load_districts (Inr example_alias) =
          (if snd (columns example_alias ! 1) \<noteq> Object then Inl AttributeError
           else Inr ((rename ''dtname'' ''district'' example_alias)
                       \<lparr>rows := map (\<lambda>r. r[1 := strip_cell (r ! 1)]) (rows example_alias)\<rparr>))"
    by blast
  then have e: "load_districts (Inr example_alias) =
        Inr \<lparr>columns = [(''geometry'', Geometry), (''district'', Object)],
             rows = [[Geom 7, Str ''Pune''], [Geom 8, Null]]\<rparr>"
    by (simp add: example_alias_def rename_def s)
  from load_districts_resolution [of ReadError example_unnamed 0 0] c d
  have f: "load_districts (Inr example_unnamed) = Inr example_unnamed"
    by blast
  have g: "load_districts (Inl ReadError) = (Inl ReadError :: error + nat gdf)"
    using load_districts_resolution [of ReadError example_unnamed 0 0] by blast
  from a b c d e f g k l show ?thesis by simp
qed

section \<open>Tidying names is idempotent\<close>

subsection \<open>Character classes\<close>

lemma space_is_space [simp]: "is_space (CHR '' '')"
  by (simp add: is_space_def)

lemma space_not_upper [simp]: "is_space c \<Longrightarrow> \<not> is_upper c"
  by (auto simp: is_space_def is_upper_def Let_def)

lemma d_not_space [simp]: "\<not> is_space (CHR ''d'')"
  by (simp add: is_space_def)

lemma and_not_upper [simp]:
  "\<not> is_upper (CHR '' '')" "\<not> is_upper (CHR ''a'')"
  "\<not> is_upper (CHR ''n'')" "\<not> is_upper (CHR ''d'')"
  by (simp_all add: is_upper_def)

lemma behind_not_space_simps [simp]:
  "behind_not_space None" "behind_not_space (Some p) = (\<not> is_space p)"
  by (simp_all add: behind_not_space_def)

subsection \<open>Capital letters follow whitespace\<close>

lemma upper_ok_mono: "upper_ok b s \<Longrightarrow> upper_ok True s"
  by (cases s) auto

lemma upper_ok_sub_upper: "upper_ok (\<not> behind_not_space prev) (sub_upper prev s)"
proof (induction s arbitrary: prev)
  case Nil
  then show ?case by simp
next
  case (Cons c cs)
  from Cons [of "Some c"] show ?case by auto
qed

lemma upper_ok_dropWhile: "upper_ok True s \<Longrightarrow> upper_ok True (dropWhile is_space s)"
  by (induction s) auto

lemma upper_ok_sub_spaces: "upper_ok b s \<Longrightarrow> upper_ok b (sub_spaces s)"
proof (induction s arbitrary: b rule: sub_spaces.induct)
  case 1
  then show ?case by simp
next
  case (2 c cs)
  show ?case
  proof (cases "is_space c")
    case True
    with "2.prems" have "upper_ok True (dropWhile is_space cs)"
      by (simp add: upper_ok_dropWhile)
    with True "2.IH"(1) show ?thesis by simp
  next
    case False
    with "2.prems" "2.IH"(2) show ?thesis by simp
  qed
qed

lemma upper_ok_prefix: "upper_ok b (xs @ ys) \<Longrightarrow> upper_ok b xs"
  by (induction xs arbitrary: b) auto

lemma strip_prefix: "rev (dropWhile P (rev u)) @ rev (takeWhile P (rev u)) = u"
proof -
  have "rev (takeWhile P (rev u) @ dropWhile P (rev u)) = u" by simp
  then show ?thesis by (simp only: rev_append)
qed

lemma upper_ok_strip:
  assumes "upper_ok b s"
  shows "upper_ok True (str_strip s)"
proof -
  from assms have "upper_ok True (dropWhile is_space s)"
    by (simp add: upper_ok_mono upper_ok_dropWhile)
  then have "upper_ok True (str_strip s @ rev (takeWhile is_space (rev (dropWhile is_space s))))"
    by (simp add: str_strip_def strip_prefix)
  then show ?thesis by (rule upper_ok_prefix)
qed

subsection \<open>Whitespace is single spaces\<close>

lemma spaced_nonspace: "\<not> is_space c \<Longrightarrow> spaced (c # s) = spaced s"
  by (cases s) auto

lemma spaced_space: "spaced (CHR '' '' # s) = ((s = [] \<or> \<not> is_space (hd s)) \<and> spaced s)"
  by (cases s) auto

lemma dropWhile_head: "dropWhile P xs = [] \<or> \<not> P (hd (dropWhile P xs))"
  using hd_dropWhile by blast

lemma hd_sub_spaces:
  "s \<noteq> [] \<Longrightarrow> \<not> is_space (hd s) \<Longrightarrow> sub_spaces s \<noteq> [] \<and> \<not> is_space (hd (sub_spaces s))"
  by (cases s) auto

lemma spaced_sub_spaces: "spaced (sub_spaces s)"
proof (induction s rule: sub_spaces.induct)
  case 1
  then show ?case by simp
next
  case (2 c cs)
  show ?case
  proof (cases "is_space c")
    case True
    define r where "r = dropWhile is_space cs"
    have "r = [] \<or> \<not> is_space (hd r)"
      unfolding r_def by (rule dropWhile_head)
    then have "sub_spaces r = [] \<or> \<not> is_space (hd (sub_spaces r))"
      using hd_sub_spaces [of r] by (cases r) auto
    moreover have "spaced (sub_spaces r)"
      unfolding r_def using True by (rule "2.IH"(1))
    moreover have "sub_spaces (c # cs) = CHR '' '' # sub_spaces r"
      unfolding r_def using True by simp
    ultimately show ?thesis by (simp only: spaced_space)
  next
    case False
    with "2.IH"(2) show ?thesis by (simp add: spaced_nonspace)
  qed
qed

lemma sub_spaces_spaced: "spaced s \<Longrightarrow> sub_spaces s = s"
proof (induction s rule: spaced.induct)
  case (3 c d cs)
  then show ?case by auto
qed simp_all

lemma spaced_append: "spaced (xs @ ys) \<Longrightarrow> spaced xs \<and> spaced ys"
proof (induction xs rule: spaced.induct)
  case 1
  then show ?case by simp
next
  case (2 c)
  then show ?case by (cases ys) auto
next
  case (3 c d cs)
  then show ?case by auto
qed

lemma spaced_strip:
  assumes "spaced s"
  shows "spaced (str_strip s)"
proof -
  have "takeWhile is_space s @ dropWhile is_space s = s" by simp
  with assms have "spaced (dropWhile is_space s)"
    using spaced_append [of "takeWhile is_space s" "dropWhile is_space s"] by simp
  then have "spaced (str_strip s @ rev (takeWhile is_space (rev (dropWhile is_space s))))"
    by (simp add: str_strip_def strip_prefix)
  then show ?thesis using spaced_append by blast
qed

subsection \<open>No whitespace at either end\<close>

lemma last_dropWhile:
  assumes "dropWhile P xs \<noteq> []"
  shows "last (dropWhile P xs) = last xs"
proof -
  have "last xs = last (takeWhile P xs @ dropWhile P xs)" by simp
  also have "\<dots> = last (dropWhile P xs)" using assms by (simp only: last_append if_False)
  finally show ?thesis by simp
qed

lemma stripped_strip: "stripped (str_strip s)"
proof (cases "str_strip s = []")
  case True
  then show ?thesis by (simp add: stripped_def)
next
  case False
  let ?u = "dropWhile is_space s"
  let ?w = "dropWhile is_space (rev ?u)"
  from False have w: "?w \<noteq> []" by (simp add: str_strip_def)
  then have u: "?u \<noteq> []" by (metis dropWhile.simps(1) rev.simps(1))
  have "\<not> is_space (hd ?w)" using w hd_dropWhile by blast
  then have l: "\<not> is_space (last (str_strip s))"
    using w by (simp add: str_strip_def last_rev)
  have "last ?w = last (rev ?u)" using w by (rule last_dropWhile)
  also have "\<dots> = hd ?u" using u by (simp add: last_rev)
  finally have "hd (str_strip s) = hd ?u"
    using w by (simp add: str_strip_def hd_rev)
  moreover have "\<not> is_space (hd ?u)" using u hd_dropWhile by blast
  ultimately show ?thesis using l by (simp add: stripped_def)
qed

lemma dropWhile_stripped: "stripped t \<Longrightarrow> dropWhile is_space t = t"
  by (cases t) (auto simp: stripped_def)

lemma dropWhile_rev_stripped: "stripped t \<Longrightarrow> dropWhile is_space (rev t) = rev t"
  by (cases "rev t") (auto simp: stripped_def last_rev [symmetric] hd_rev)

lemma strip_stripped: "stripped t \<Longrightarrow> str_strip t = t"
  by (simp add: str_strip_def dropWhile_stripped dropWhile_rev_stripped)

lemma strip_space_stripped: "stripped t \<Longrightarrow> str_strip (CHR '' '' # t) = t"
  by (simp add: str_strip_def dropWhile_stripped dropWhile_rev_stripped)

subsection \<open>Characters of the result\<close>

lemma replace_char_absent: "old \<notin> set s \<Longrightarrow> replace_char old new s = s"
  by (induction s) (auto simp: replace_char_def)

lemma set_replace_char:
  "old \<noteq> new \<Longrightarrow> set (replace_char old new s) \<subseteq> (set s - {old}) \<union> {new}"
  by (auto simp: replace_char_def)

lemma set_sub_and: "set (sub_and prev s) \<subseteq> set s \<union> set '' and ''"
  by (induction prev s rule: sub_and.induct) auto

lemma set_sub_upper: "set (sub_upper prev s) \<subseteq> set s \<union> {CHR '' ''}"
  by (induction s arbitrary: prev) auto

lemma set_sub_spaces: "set (sub_spaces s) \<subseteq> set s \<union> {CHR '' ''}"
proof (induction s rule: sub_spaces.induct)
  case 1
  then show ?case by simp
next
  case (2 c cs)
  have "set (dropWhile is_space cs) \<subseteq> set cs"
    by (auto dest: set_dropWhileD)
  with 2 show ?case by (cases "is_space c") auto
qed

lemma set_str_strip: "set (str_strip s) \<subseteq> set s"
  by (auto simp: str_strip_def dest!: set_dropWhileD)

lemma separator_free_tidy_str: "separator_free (tidy_str s)"
proof -
  let ?a = "replace_char (CHR ''_'') (CHR '' '') s"
  let ?b = "replace_char (CHR ''-'') (CHR '' '') ?a"
  have a: "CHR ''_'' \<notin> set ?a"
    using set_replace_char [of "CHR ''_''" "CHR '' ''" s] by auto
  have b: "CHR ''_'' \<notin> set ?b \<and> CHR ''-'' \<notin> set ?b"
    using a set_replace_char [of "CHR ''-''" "CHR '' ''" ?a] by auto
  have "set (tidy_str s) \<subseteq> set ?b \<union> set '' and ''"
    using set_str_strip [of "sub_spaces (sub_upper None (sub_and None ?b))"]
      set_sub_spaces [of "sub_upper None (sub_and None ?b)"]
      set_sub_upper [of None "sub_and None ?b"]
      set_sub_and [of None ?b]
    by (auto simp: tidy_str_def Let_def)
  with b show ?thesis by (auto simp: separator_free_def)
qed

subsection \<open>A tidied name is a fixed point of every step\<close>

lemma sub_and_upper_ok: "upper_ok b s \<Longrightarrow> sub_and prev s = s"
proof (induction prev s arbitrary: b rule: sub_and.induct)
  case (1 prev c1 c2 c3 c4 cs)
  from "1.prems" have no: "\<not> (c3 = CHR ''d'' \<and> is_upper c4)"
    by auto
  from "1.prems" have "upper_ok (is_space c1) (c2 # c3 # c4 # cs)"
    by simp
  with no "1.IH"(2) show ?case by auto
qed simp_all

lemma sub_upper_upper_ok:
  "upper_ok b s \<Longrightarrow> (b \<longrightarrow> \<not> behind_not_space prev) \<Longrightarrow> sub_upper prev s = s"
proof (induction s arbitrary: b prev)
  case Nil
  then show ?case by simp
next
  case (Cons c cs)
  from Cons.prems have "sub_upper (Some c) cs = cs"
    using Cons.IH [of "is_space c" "Some c"] by simp
  with Cons.prems show ?case by auto
qed

lemma sub_upper_start:
  assumes "upper_ok True s"
  shows "sub_upper None s = (if s \<noteq> [] \<and> is_upper (hd s) then CHR '' '' # s else s)"
proof (cases s)
  case Nil
  then show ?thesis by simp
next
  case (Cons c cs)
  with assms have "sub_upper (Some c) cs = cs"
    using sub_upper_upper_ok [of "is_space c" cs "Some c"] by simp
  with Cons show ?thesis by simp
qed

lemma tidied_tidy_str: "tidied (tidy_str s)"
proof -
  let ?c = "sub_upper None (sub_and None
              (replace_char (CHR ''-'') (CHR '' '') (replace_char (CHR ''_'') (CHR '' '') s)))"
  have t: "tidy_str s = str_strip (sub_spaces ?c)"
    by (simp add: tidy_str_def)
  have "upper_ok False ?c"
    using upper_ok_sub_upper [of None] by simp
  then have "upper_ok True (tidy_str s)"
    unfolding t by (intro upper_ok_strip upper_ok_sub_spaces)
  moreover have "spaced (tidy_str s)"
    unfolding t by (intro spaced_strip spaced_sub_spaces)
  moreover have "stripped (tidy_str s)"
    unfolding t by (rule stripped_strip)
  ultimately show ?thesis
    by (simp add: tidied_def separator_free_tidy_str)
qed

lemma tidy_str_tidied:
  assumes "tidied t"
  shows "tidy_str t = t"
proof -
  from assms have sep: "CHR ''_'' \<notin> set t" "CHR ''-'' \<notin> set t"
    and up: "upper_ok True t" and sp: "spaced t" and st: "stripped t"
    by (simp_all add: tidied_def separator_free_def)
  have r: "replace_char (CHR ''-'') (CHR '' '') (replace_char (CHR ''_'') (CHR '' '') t) = t"
    using sep by (simp add: replace_char_absent)
  have a: "sub_and None t = t"
    using up by (rule sub_and_upper_ok)
  have t: "tidy_str t = str_strip (sub_spaces (sub_upper None t))"
    by (simp add: tidy_str_def r a)
  show ?thesis
  proof (cases "t \<noteq> [] \<and> is_upper (hd t)")
    case True
    then have "\<not> is_space (hd t)" by auto
    with True sp have "spaced (CHR '' '' # t)"
      by (simp add: spaced_space)
    then have "sub_spaces (CHR '' '' # t) = CHR '' '' # t"
      by (rule sub_spaces_spaced)
    with True up st show ?thesis
      by (simp add: t sub_upper_start strip_space_stripped)
  next
    case False
    with up have "sub_upper None t = t"
      by (simp add: sub_upper_start)
    with sp st show ?thesis
      by (simp add: t sub_spaces_spaced strip_stripped)
  qed
qed

lemma tidy_str_idem: "tidy_str (tidy_str s) = tidy_str s"
  by (rule tidy_str_tidied) (rule tidied_tidy_str)

lemma tidy_str_example: "tidy_str ''_AndamanandNicobar-Islands  '' = ''Andaman and Nicobar Islands''"
  by (simp add: tidy_str_def replace_char_def str_strip_def behind_lower_def
      is_space_def is_upper_def is_lower_def)

text \<open>
  Claim C10. Tidying a name twice gives what tidying it once gives, for every value:
  a string is tidied, and a value that is not a string (a missing value, a number, a
  geometry) is returned unchanged.
\<close>

theorem tidy_name_idempotent:
  "tidy_name (tidy_name v) = tidy_name v
   \<and> tidy_name (Str s) = (Str (tidy_str s) :: 'g cell)
   \<and> tidy_name (Null :: 'g cell) = Null
   \<and> tidy_name (Num n :: 'g cell) = Num n
   \<and> tidy_name (Geom g :: 'g cell) = Geom g"
  by (cases v) (simp_all add: tidy_str_idem)

theorem tidy_name_idempotent_witness:
  "tidy_name (Str ''_AndamanandNicobar-Islands  '') = (Str ''Andaman and Nicobar Islands'' :: nat cell)
   \<and> tidy_name (Str ''Andaman and Nicobar Islands'') = (Str ''Andaman and Nicobar Islands'' :: nat cell)"
proof -
  let ?v = "Str ''_AndamanandNicobar-Islands  '' :: nat cell"
  have a: "tidy_name ?v = Str ''Andaman and Nicobar Islands''"
    by (simp add: tidy_str_example)
  from tidy_name_idempotent [of ?v "''Goa''" 0 0]
  have "tidy_name (tidy_name ?v) = tidy_name ?v" by blast
  with a show ?thesis by simp
qed

section \<open>The buffer tool\<close>

text \<open>
  When app.py calls \<^verbatim>\<open>buffer_geometries\<close>: exactly for a selection that is present and
  not empty together with a strictly positive distance. The function is never called
  with distance 0, so app.py says nothing about its value there.
\<close>

lemma buffer_tools_call:
  "buffer_tools buffer_geometries selection buffer_km =
     (case selection of
        None \<Rightarrow> None
      | Some sd \<Rightarrow>
          if frame_empty sd \<or> buffer_km \<le> 0 then None
          else Some (buffer_geometries sd buffer_km))"
  by (simp add: buffer_tools_def not_less split: option.splits)

lemma buffer_tools_Some_iff:
  "buffer_tools buffer_geometries selection buffer_km = Some out \<longleftrightarrow>
     (\<exists>sd. selection = Some sd \<and> \<not> frame_empty sd \<and> 0 < buffer_km
           \<and> out = buffer_geometries sd buffer_km)"
  by (auto simp: buffer_tools_def split: option.splits)

section \<open>Connectors\<close>

lemma length_pairs: "length (concat (map (\<lambda>f. map (h f) ts) sel)) = length sel * length ts"
  by (induction sel) auto

text \<open>
  Claim C3. The builder returns one Connector per ordered pair of a selected Feature
  and a target point, whatever the style; with no targets, or with none given, it
  returns the empty sequence. So does the call of app.py, which hands an empty list of
  clicked points on as \<^verbatim>\<open>None\<close>.
\<close>

theorem build_connectors_count:
  "length (build_connectors p anchor selection (Some ts) sty) = length selection * length ts
   \<and> build_connectors p anchor selection None sty = []
   \<and> build_connectors p anchor selection (Some []) sty = []
   \<and> length (build_connectors p anchor selection (target_coords clicks) sty)
       = length selection * length clicks"
  by (simp add: build_connectors_def target_coords_def length_pairs)

text \<open>
  Claim C8. For every anchor and target, the dashed Connector has the line of the
  straight one, the two points anchor and target, and the same label anchor; the two
  differ in the style tag only. The same holds for the sequences the builder returns.
\<close>

theorem dashed_line_is_straight_line:
  "line (build_connector p Dashed a t) = line (build_connector p Straight a t)
   \<and> line (build_connector p Dashed a t) = [a, t]
   \<and> length (line (build_connector p Dashed a t)) = 2
   \<and> label_at (build_connector p Dashed a t) = label_at (build_connector p Straight a t)
   \<and> style (build_connector p Dashed a t) = Dashed
   \<and> style (build_connector p Straight a t) = Straight
   \<and> map line (build_connectors p anchor selection targets Dashed)
       = map line (build_connectors p anchor selection targets Straight)"
  by (simp add: build_connectors_def map_concat comp_def split: option.splits)

section \<open>Colours\<close>

lemma normalize_value_bounds:
  assumes "lo \<le> v" and "v \<le> hi" and "lo \<noteq> hi"
  shows "0 \<le> normalize_value lo hi v \<and> normalize_value lo hi v \<le> 1"
proof -
  from assms have "0 < hi - lo" by simp
  with assms show ?thesis
    by (simp add: normalize_value_def divide_le_eq)
qed

lemma normalize_value_ends:
  "lo \<noteq> hi \<Longrightarrow> normalize_value lo hi lo = 0 \<and> normalize_value lo hi hi = 1"
  by (simp add: normalize_value_def)

text \<open>
  Claim C4. For a collection that has the attribute and at least one Feature, the
  mapper returns a binding with one colour per Feature, in order. When the least and
  the greatest value of the attribute are equal, every Feature has the mid-scale
  colour. Otherwise every Feature has the colour at its value's linear position
  between the least and the greatest value, a position in the unit interval; a Feature
  with the least value has the colour at 0, a Feature with the greatest value has the
  colour at 1, and both kinds of Feature exist.
\<close>

theorem map_colors_extremes:
  fixes palette :: "real \<Rightarrow> 'c"
  assumes "col_index attr (schema coll) = Some i" and "features coll \<noteq> []"
  defines "vals \<equiv> map (\<lambda>f. scalars f ! i) (features coll)"
  defines "lo \<equiv> Min (set vals)" and "hi \<equiv> Max (set vals)"
  shows "\<exists>binding. map_colors palette coll attr = Inr binding
           \<and> map fst binding = map ident (features coll)
           \<and> (lo = hi \<longrightarrow> (\<forall>b \<in> set binding. snd b = palette (1 / 2)))
           \<and> (lo \<noteq> hi \<longrightarrow>
                (\<forall>k < length vals.
                    snd (binding ! k) = palette ((vals ! k - lo) / (hi - lo))
                    \<and> 0 \<le> (vals ! k - lo) / (hi - lo) \<and> (vals ! k - lo) / (hi - lo) \<le> 1
                    \<and> (vals ! k = lo \<longrightarrow> snd (binding ! k) = palette 0)
                    \<and> (vals ! k = hi \<longrightarrow> snd (binding ! k) = palette 1))
                \<and> (\<exists>k < length vals. vals ! k = lo)
                \<and> (\<exists>k < length vals. vals ! k = hi))"
proof -
  let ?b = "map (\<lambda>f. (ident f, palette (normalize_value lo hi (scalars f ! i)))) (features coll)"
  have ne: "vals \<noteq> []"
    using assms(2) by (simp add: vals_def)
  have res: "map_colors palette coll attr = Inr ?b"
    using assms(1) ne by (simp add: map_colors_def vals_def lo_def hi_def Let_def)
  have names: "map fst ?b = map ident (features coll)"
    by (simp add: comp_def)
  have mid: "\<forall>b \<in> set ?b. snd b = palette (1 / 2)" if "lo = hi"
    using that by (auto simp: normalize_value_def)
  have nth: "snd (?b ! k) = palette (normalize_value lo hi (vals ! k))" if "k < length vals" for k
    using that by (simp add: vals_def)
  have range: "lo \<le> vals ! k \<and> vals ! k \<le> hi" if "k < length vals" for k
    using that by (simp add: lo_def hi_def)
  have each: "snd (?b ! k) = palette ((vals ! k - lo) / (hi - lo))
              \<and> 0 \<le> (vals ! k - lo) / (hi - lo) \<and> (vals ! k - lo) / (hi - lo) \<le> 1
              \<and> (vals ! k = lo \<longrightarrow> snd (?b ! k) = palette 0)
              \<and> (vals ! k = hi \<longrightarrow> snd (?b ! k) = palette 1)"
    if "lo \<noteq> hi" and "k < length vals" for k
    using that nth [of k] range [of k] normalize_value_bounds [of lo "vals ! k" hi]
      normalize_value_ends [of lo hi]
    by (auto simp: normalize_value_def)
  have "lo \<in> set vals" and "hi \<in> set vals"
    using ne by (simp_all add: lo_def hi_def)
  then have ex: "(\<exists>k < length vals. vals ! k = lo) \<and> (\<exists>k < length vals. vals ! k = hi)"
    by (simp add: in_set_conv_nth)
  from res names mid each ex show ?thesis
    by (intro exI [of _ ?b]) blast
qed

theorem map_colors_extremes_witness:
  "col_index ''Population'' (schema example_population) = Some 0
   \<and> features example_population \<noteq> []
   \<and> map_colors (\<lambda>x. x) example_population ''Population''
       = Inr [(''Goa'', 2 / 7), (''Kerala'', 1), (''Sikkim'', 0)]
   \<and> map_colors (\<lambda>x. x) example_uniform ''Population''
       = Inr [(''Goa'', 1 / 2), (''Kerala'', 1 / 2)]"
proof -
  have a: "col_index ''Population'' (schema example_population) = Some 0"
    and b: "features example_population \<noteq> []"
    by (simp_all add: example_population_def)
  have c: "col_index ''Population'' (schema example_uniform) = Some 0"
    and d: "features example_uniform \<noteq> []"
    by (simp_all add: example_uniform_def)
  have vp: "map (\<lambda>f. scalars f ! 0) (features example_population) = [15, 35, 7]"
    by (simp add: example_population_def)
  have vu: "map (\<lambda>f. scalars f ! 0) (features example_uniform) = [5, 5]"
    by (simp add: example_uniform_def)
  from map_colors_extremes [OF a b, of "\<lambda>x. x"] obtain bp
    where bp: "map_colors (\<lambda>x. x) example_population ''Population'' = Inr bp"
      and np: "map fst bp = map ident (features example_population)"
      and xp: "\<forall>k < 3. ([15, 35, 7] ! k = (7::real) \<longrightarrow> snd (bp ! k) = 0)
                 \<and> ([15, 35, 7] ! k = (35::real) \<longrightarrow> snd (bp ! k) = 1)"
    unfolding vp by auto
  from map_colors_extremes [OF c d, of "\<lambda>x. x"] obtain bu
    where bu: "map_colors (\<lambda>x. x) example_uniform ''Population'' = Inr bu"
      and nu: "map fst bu = map ident (features example_uniform)"
      and xu: "\<forall>b \<in> set bu. snd b = 1 / 2"
    unfolding vu by auto
  have "map_colors (\<lambda>x. x) example_population ''Population''
       = Inr [(''Goa'', 2 / 7), (''Kerala'', 1), (''Sikkim'', 0)]"
    by (simp add: map_colors_def example_population_def normalize_value_def)
  moreover have "map_colors (\<lambda>x. x) example_uniform ''Population''
       = Inr [(''Goa'', 1 / 2), (''Kerala'', 1 / 2)]"
    by (simp add: map_colors_def example_uniform_def normalize_value_def)
  ultimately show ?thesis using a b bp bu xp xu by simp
qed

end
